theory Spec2Isabelle
  imports Main "HOL-Library.Word"
begin

section \<open>Go standard library functions used by the lock handler\<close>

text \<open>
  \<^verbatim>\<open>strconv.Atoi\<close> is \<^verbatim>\<open>ParseInt(s, 10, 0)\<close>: an optional sign, then at least one
  decimal digit, nothing else. The \<^verbatim>\<open>int\<close> of the handler is taken to be 64 bits wide.
  A Go function returning \<^verbatim>\<open>(int, error)\<close> returns a pair here; the second component is
  \<open>None\<close> for \<^verbatim>\<open>nil\<close>.
\<close>

datatype num_error = ErrSyntax | ErrRange

definition digit :: "char \<Rightarrow> int option" where
  "digit c = (let b = (of_char c :: int) in if 48 \<le> b \<and> b \<le> 57 then Some (b - 48) else None)"

text \<open>
  The digit loop of \<^verbatim>\<open>ParseUint\<close>: a byte that is no digit is a syntax error with value 0,
  a value beyond \<^verbatim>\<open>1<<64 - 1\<close> is a range error with that maximum as value, found at the
  digit that overflows.
\<close>

fun ParseUint :: "int \<Rightarrow> string \<Rightarrow> int \<times> num_error option" where
  "ParseUint n [] = (n, None)"
| "ParseUint n (c # cs) =
     (case digit c of
        None \<Rightarrow> (0, Some ErrSyntax)
      | Some d \<Rightarrow>
          if 2 ^ 64 - 1 < n * 10 + d then (2 ^ 64 - 1, Some ErrRange)
          else ParseUint (n * 10 + d) cs)"

definition Atoi :: "string \<Rightarrow> int \<times> num_error option" where
  "Atoi s =
     (if s = [] then (0, Some ErrSyntax)
      else
        let neg = (hd s = CHR ''-'');
            s' = (if hd s = CHR ''+'' \<or> hd s = CHR ''-'' then tl s else s)
        in if s' = [] then (0, Some ErrSyntax)
           else
             (case ParseUint 0 s' of
                (un, Some ErrSyntax) \<Rightarrow> (0, Some ErrSyntax)
              | (un, _) \<Rightarrow>
                  if \<not> neg \<and> 2 ^ 63 \<le> un then (2 ^ 63 - 1, Some ErrRange)
                  else if neg \<and> 2 ^ 63 < un then (- (2 ^ 63), Some ErrRange)
                  else (if neg then - un else un, None)))"

text \<open>\<^verbatim>\<open>strconv.Itoa\<close>: the decimal digits, after a minus sign for a negative number.\<close>

fun utoa :: "nat \<Rightarrow> string" where
  "utoa n = (if n < 10 then [char_of (48 + n)] else utoa (n div 10) @ [char_of (48 + n mod 10)])"

declare utoa.simps [simp del]

definition Itoa :: "int \<Rightarrow> string" where
  "Itoa i = (if i < 0 then CHR ''-'' # utoa (nat (- i)) else utoa (nat i))"

text \<open>
  \<^verbatim>\<open>path.Base\<close>: the last element of a slash-separated path, trailing slashes removed first;
  \<^verbatim>\<open>"."\<close> for the empty path and \<^verbatim>\<open>"/"\<close> for a path of slashes only.
\<close>

definition path_Base :: "string \<Rightarrow> string" where
  "path_Base p =
     (if p = [] then ''.''
      else
        let p1 = rev (dropWhile (\<lambda>c. c = CHR ''/'') (rev p));
            p2 = rev (takeWhile (\<lambda>c. c \<noteq> CHR ''/'') (rev p1))
        in if p2 = [] then ''/'' else p2)"

text \<open>The conversion \<^verbatim>\<open>uint64(ttl)\<close> of a signed \<^verbatim>\<open>int\<close>: two's complement wrap-around.\<close>

definition uint64 :: "int \<Rightarrow> 64 word" where
  "uint64 i = word_of_int i"

section \<open>The coordination store as seen by the handler\<close>

text \<open>
  An \<^verbatim>\<open>etcd.Node\<close> with the two fields the handler reads, and the part of a \<^verbatim>\<open>Get\<close>
  response it reads: the directory's \<^verbatim>\<open>ModifiedIndex\<close> and its child \<^verbatim>\<open>Nodes\<close>.
\<close>

record node =
  Key :: string
  Value :: string

record response =
  ModifiedIndex :: "64 word"
  Nodes :: "node list"

text \<open>
  The index of a lock node is read off its key, \<^verbatim>\<open>strconv.Atoi(path.Base(node.Key))\<close>,
  the conversion error being dropped (\<^verbatim>\<open>index, _ := ...\<close>).
\<close>

definition keyIndex :: "string \<Rightarrow> int" where
  "keyIndex k = fst (Atoi (path_Base k))"

text \<open>
  Modelled from the spec: the methods \<^verbatim>\<open>FindByValue\<close> and \<^verbatim>\<open>PrevIndex\<close> of the type
  \<^verbatim>\<open>lockNodes\<close>, which the handler calls and whose source file is not part of the
  sources at hand. \<^verbatim>\<open>FindByValue\<close> "returns the entry whose associated value equals the
  given value, or none" (the first such entry of the snapshot here). \<^verbatim>\<open>PrevIndex\<close> is
  "the largest sequence index in the snapshot that is strictly less than index", 0 "when
  no such entry exists"; an empty snapshot and a snapshot "where index itself is absent"
  are treated "as no predecessor".
\<close>

definition FindByValue :: "node list \<Rightarrow> string \<Rightarrow> node option" where
  "FindByValue nodes v = find (\<lambda>n. Value n = v) nodes"

definition PrevIndex :: "node list \<Rightarrow> int \<Rightarrow> int" where
  "PrevIndex nodes index =
     (let idxs = map (\<lambda>n. keyIndex (Key n)) nodes;
          below = filter (\<lambda>i. i < index) idxs
      in if index \<notin> set idxs \<or> below = [] then 0 else fold max (tl below) (hd below))"

text \<open>
  The calls the handler issues, in the order it issues them. \<open>Watch keypath prevIndex
  waitIndex\<close> stands for the call \<^verbatim>\<open>Watch(path.Join(keypath, strconv.Itoa(prevIndex)),
  waitIndex, false, nil, stopWatchChan)\<close>; \<open>GoTtlKeepAlive\<close> is the start of the
  keep-alive goroutine and \<open>CloseStopChan\<close> is \<^verbatim>\<open>close(stopChan)\<close>.
\<close>

datatype call =
    SyncCluster
  | Get string
  | AddChild string string "64 word"
  | GoTtlKeepAlive string string int
  | Watch string int "64 word"
  | Update string string "64 word"
  | Delete string
  | CloseStopChan

text \<open>
  The errors of the store client: \<^verbatim>\<open>etcd.ErrWatchStoppedByUser\<close>, which \<^verbatim>\<open>Watch\<close>
  returns when its stop channel delivers a value, and any other error, with its message.
\<close>

datatype etcd_error = ErrWatchStoppedByUser | EtcdError string

text \<open>
  What the store does with a blocking watch: it never answers, it reports a change, or it
  fails with a message.
\<close>

datatype watch_reply = Silent | Changed | WatchFailed string

text \<open>
  One turn of the watch loop as the environment plays it: the reply to the \<^verbatim>\<open>Get\<close>,
  whether the client connection goes away while the \<^verbatim>\<open>Watch\<close> of this turn is blocked
  (before the store answers it), and the store's answer to that \<^verbatim>\<open>Watch\<close>.
\<close>

record round =
  get_reply :: "string + response"
  client_gone :: bool
  watch_reply :: watch_reply

text \<open>
  The environment of one request: the reply to the \<^verbatim>\<open>Get\<close> of \<^verbatim>\<open>findExistingNode\<close>,
  the reply to \<^verbatim>\<open>AddChild\<close> (an error message or the key of the created node), the turns
  of the watch loop, whether a value can be received from \<^verbatim>\<open>closeChan\<close> at the
  \<^verbatim>\<open>select\<close> that follows the loop, and the replies to the final \<^verbatim>\<open>Update\<close> and
  \<^verbatim>\<open>Delete\<close>.
\<close>

record env =
  find_reply :: "string + response"
  add_reply :: "string + string"
  rounds :: "round list"
  close_ready :: bool
  update_reply :: "string option"
  delete_reply :: "string option"

text \<open>
  The \<^verbatim>\<open>closeChan\<close> argument of \<^verbatim>\<open>watch\<close>: \<^verbatim>\<open>nil\<close>, or the channel of
  \<^verbatim>\<open>CloseNotify()\<close>.
\<close>

datatype close_chan = Nil_chan | Close_notify

text \<open>
  A function that may block for ever: the calls it has issued, and its return value if it
  returns. A Go \<^verbatim>\<open>error\<close> is its message, \<open>None\<close> for \<^verbatim>\<open>nil\<close>.
\<close>

datatype 'a outcome = Blocked | Returns 'a

type_synonym go_error = "string option"

section \<open>The handler\<close>

text \<open>
  \<^verbatim>\<open>Client.Watch\<close> with the stop channel of \<^verbatim>\<open>watch\<close>. The goroutine started by
  \<^verbatim>\<open>watch\<close> sends on \<^verbatim>\<open>stopWatchChan\<close> only after receiving from \<^verbatim>\<open>closeChan\<close>, and
  a receive from a \<^verbatim>\<open>nil\<close> channel never completes: the watch is stopped when the
  client goes away and \<^verbatim>\<open>closeChan\<close> is not \<^verbatim>\<open>nil\<close>.
\<close>

definition client_Watch :: "close_chan \<Rightarrow> round \<Rightarrow> etcd_error option outcome" where
  "client_Watch closeChan r =
     (if closeChan = Close_notify \<and> client_gone r then Returns (Some ErrWatchStoppedByUser)
      else
        (case watch_reply r of
           Silent \<Rightarrow> Blocked
         | Changed \<Rightarrow> Returns None
         | WatchFailed e \<Rightarrow> Returns (Some (EtcdError e))))"

text \<open>
  \<^verbatim>\<open>watch\<close>, one turn of the environment for each iteration of its loop. When the
  turns run out the loop has not returned.
\<close>

fun watch :: "string \<Rightarrow> int \<Rightarrow> close_chan \<Rightarrow> round list \<Rightarrow> call list \<times> go_error outcome" where
  "watch keypath index closeChan [] = ([], Blocked)"
| "watch keypath index closeChan (r # rs) =
     (case get_reply r of
        Inl e \<Rightarrow> ([Get keypath], Returns (Some (''lock watch lookup error: '' @ e)))
      | Inr resp \<Rightarrow>
          (let waitIndex = ModifiedIndex resp;
               prevIndex = PrevIndex (Nodes resp) index
           in if prevIndex = 0 then ([Get keypath], Returns None)
              else
                (case client_Watch closeChan r of
                   Blocked \<Rightarrow> ([Get keypath, Watch keypath prevIndex waitIndex], Blocked)
                 | Returns (Some ErrWatchStoppedByUser) \<Rightarrow>
                     ([Get keypath, Watch keypath prevIndex waitIndex],
                      Returns (Some ''lock watch closed''))
                 | Returns (Some (EtcdError e)) \<Rightarrow>
                     ([Get keypath, Watch keypath prevIndex waitIndex],
                      Returns (Some (''lock watch error:'' @ e)))
                 | Returns None \<Rightarrow>
                     (let (cs, out) = watch keypath index closeChan rs
                      in (Get keypath # Watch keypath prevIndex waitIndex # cs, out)))))"

text \<open>\<^verbatim>\<open>findExistingNode\<close>: the calls issued and the index found, 0 for none.\<close>

definition findExistingNode :: "string \<Rightarrow> string \<Rightarrow> env \<Rightarrow> call list \<times> int" where
  "findExistingNode keypath v e =
     (if 0 < length v then
        (case find_reply e of
           Inr resp \<Rightarrow>
             (case FindByValue (Nodes resp) v of
                Some n \<Rightarrow> ([Get keypath], keyIndex (Key n))
              | None \<Rightarrow> ([Get keypath], 0))
         | Inl err \<Rightarrow> ([Get keypath], 0))
      else ([], 0))"

text \<open>
  \<^verbatim>\<open>createNode\<close>: the calls issued and, if it returns, the pair \<^verbatim>\<open>(index, err)\<close>.
  The results of the final \<^verbatim>\<open>Update\<close> and \<^verbatim>\<open>Delete\<close> are not looked at.
\<close>

definition createNode ::
  "string \<Rightarrow> string \<Rightarrow> int \<Rightarrow> close_chan \<Rightarrow> env \<Rightarrow> call list \<times> (int \<times> go_error) outcome" where
  "createNode keypath v0 ttl closeChan e =
     (let v = (if length v0 = 0 then ''-'' else v0) in
      case add_reply e of
        Inl err \<Rightarrow>
          ([AddChild keypath v (uint64 ttl)],
           Returns (0, Some (''acquire lock index error: '' @ err)))
      | Inr indexpath \<Rightarrow>
          (let index = keyIndex indexpath;
               started = [AddChild keypath v (uint64 ttl), GoTtlKeepAlive indexpath v ttl]
           in case watch keypath index closeChan (rounds e) of
                (cs, Blocked) \<Rightarrow> (started @ cs, Blocked)
              | (cs, Returns werr) \<Rightarrow>
                  (let err = (if werr \<noteq> None \<and> close_ready e
                              then Some ''acquire lock error: user interrupted'' else werr)
                   in if err = None
                      then (let _ = update_reply e
                            in (started @ cs @ [Update indexpath v (uint64 ttl)],
                                Returns (index, err)))
                      else (let _ = delete_reply e
                            in (started @ cs @ [Delete indexpath], Returns (index, err))))))"

text \<open>
  The request as \<^verbatim>\<open>acquireHandler\<close> reads it: the form values \<^verbatim>\<open>value\<close>,
  \<^verbatim>\<open>timeout\<close> and \<^verbatim>\<open>ttl\<close>. The lock's key path, \<^verbatim>\<open>path.Join(prefix, vars["key"])\<close>,
  is an argument of the model. Every error response has the status
  \<^verbatim>\<open>http.StatusInternalServerError\<close>. The handler calls \<^verbatim>\<open>SyncCluster\<close> before it reads
  the request; the timeout is converted and incremented, and not used after that.
\<close>

record request =
  form_value :: string
  form_timeout :: string
  form_ttl :: string

datatype http_response = HttpError string | Body string

definition respond :: "int \<Rightarrow> go_error \<Rightarrow> http_response" where
  "respond index err = (case err of Some msg \<Rightarrow> HttpError msg | None \<Rightarrow> Body (Itoa index))"

definition acquireHandler ::
  "string \<Rightarrow> request \<Rightarrow> env \<Rightarrow> call list \<times> http_response outcome" where
  "acquireHandler keypath req e =
     (let closeChan = Close_notify;
          v = form_value req;
          (timeout, terr) = (if form_timeout req = [] then (- 1, None) else Atoi (form_timeout req))
      in if terr \<noteq> None
         then ([SyncCluster], Returns (HttpError (''invalid timeout: '' @ form_timeout req)))
         else
           (case Atoi (form_ttl req) of
              (ttl, Some _) \<Rightarrow>
                ([SyncCluster], Returns (HttpError (''invalid ttl: '' @ form_ttl req)))
            | (ttl, None) \<Rightarrow>
                (let (cf, index) = findExistingNode keypath v e
                 in if 0 < index
                    then
                      (case watch keypath index Nil_chan (rounds e) of
                         (cs, Blocked) \<Rightarrow> (SyncCluster # cf @ cs, Blocked)
                       | (cs, Returns err) \<Rightarrow>
                           (SyncCluster # cf @ cs @ [CloseStopChan], Returns (respond index err)))
                    else
                      (case createNode keypath v ttl closeChan e of
                         (cs, Blocked) \<Rightarrow> (SyncCluster # cf @ cs, Blocked)
                       | (cs, Returns (index', err)) \<Rightarrow>
                           (SyncCluster # cf @ cs @ [CloseStopChan],
                            Returns (respond index' err))))))"

section \<open>Notions used in the statements\<close>

text \<open>
  A request that gets past the parsing of \<^verbatim>\<open>timeout\<close> and \<^verbatim>\<open>ttl\<close>: the timeout is
  absent or converts without error, and the ttl converts without error.
\<close>

definition well_formed :: "request \<Rightarrow> bool" where
  "well_formed req =
     ((form_timeout req = [] \<or> snd (Atoi (form_timeout req)) = None) \<and>
      snd (Atoi (form_ttl req)) = None)"

text \<open>The value stored with a new entry: \<^verbatim>\<open>"-"\<close> for a blank one.\<close>

definition entry_value :: "request \<Rightarrow> string" where
  "entry_value req = (if form_value req = [] then ''-'' else form_value req)"

text \<open>
  A turn after which the loop goes round again: the lookup succeeds, the caller has a
  predecessor, and the watch on it completes without error.
\<close>

definition proceeds :: "int \<Rightarrow> close_chan \<Rightarrow> round \<Rightarrow> bool" where
  "proceeds index closeChan r =
     (case get_reply r of
        Inl e \<Rightarrow> False
      | Inr resp \<Rightarrow> PrevIndex (Nodes resp) index \<noteq> 0 \<and> client_Watch closeChan r = Returns None)"

text \<open>
  The calls of a turn that watches: the lookup of the whole directory, then the watch on
  the predecessor found in that lookup, from the directory's modified index in that lookup.
\<close>

definition turn_calls :: "string \<Rightarrow> int \<Rightarrow> round \<Rightarrow> call list" where
  "turn_calls keypath index r =
     (case get_reply r of
        Inl e \<Rightarrow> [Get keypath]
      | Inr resp \<Rightarrow>
          [Get keypath, Watch keypath (PrevIndex (Nodes resp) index) (ModifiedIndex resp)])"


section \<open>Concrete scenarios\<close>

text \<open>
  The lock \<^verbatim>\<open>/lock/db\<close> with the entry 1 of another client and the entry 2 of the caller.
\<close>

definition nodeA :: node where
  "nodeA = \<lparr>Key = ''/lock/db/1'', Value = ''clientA''\<rparr>"

definition nodeB :: node where
  "nodeB = \<lparr>Key = ''/lock/db/2'', Value = ''clientB''\<rparr>"

definition turn_behind :: round where
  "turn_behind =
     \<lparr>get_reply = Inr \<lparr>ModifiedIndex = 7, Nodes = [nodeA, nodeB]\<rparr>,
      client_gone = False, watch_reply = Changed\<rparr>"

definition turn_first :: round where
  "turn_first =
     \<lparr>get_reply = Inr \<lparr>ModifiedIndex = 8, Nodes = [nodeB]\<rparr>,
      client_gone = False, watch_reply = Changed\<rparr>"

definition turn_disconnect :: round where
  "turn_disconnect =
     \<lparr>get_reply = Inr \<lparr>ModifiedIndex = 7, Nodes = [nodeA, nodeB]\<rparr>,
      client_gone = True, watch_reply = Silent\<rparr>"

definition turn_lookup_fails :: round where
  "turn_lookup_fails =
     \<lparr>get_reply = Inl ''connection refused'', client_gone = False, watch_reply = Changed\<rparr>"

definition turn_watch_fails :: round where
  "turn_watch_fails =
     \<lparr>get_reply = Inr \<lparr>ModifiedIndex = 7, Nodes = [nodeA, nodeB]\<rparr>,
      client_gone = False, watch_reply = WatchFailed ''EOF''\<rparr>"

definition request_B :: "string \<Rightarrow> request" where
  "request_B ttl = \<lparr>form_value = ''clientB'', form_timeout = [], form_ttl = ttl\<rparr>"

text \<open>
  The caller's value is not in the directory yet, \<^verbatim>\<open>AddChild\<close> creates the entry 2, and the
  watch loop goes through the given turns.
\<close>

definition env_create :: "round list \<Rightarrow> env" where
  "env_create rs =
     \<lparr>find_reply = Inr \<lparr>ModifiedIndex = 5, Nodes = [nodeA]\<rparr>,
      add_reply = Inr ''/lock/db/2'',
      rounds = rs,
      close_ready = False,
      update_reply = Some ''key not found'',
      delete_reply = None\<rparr>"

text \<open>The caller's value is already in the directory, at the entry 2.\<close>

definition env_reuse :: "round list \<Rightarrow> env" where
  "env_reuse rs = (env_create rs)\<lparr>find_reply := Inr \<lparr>ModifiedIndex = 6, Nodes = [nodeA, nodeB]\<rparr>\<rparr>"

text \<open>The lookup of \<^verbatim>\<open>findExistingNode\<close> fails, and \<^verbatim>\<open>AddChild\<close> creates the entry 3.\<close>

definition env_lookup_fails :: "round list \<Rightarrow> env" where
  "env_lookup_fails rs =
     (env_create rs)\<lparr>find_reply := Inl ''connection refused'', add_reply := Inr ''/lock/db/3''\<rparr>"

text \<open>
  A second entry with the caller's value, and a turn in which both entries of that value
  are in the directory and the store does not answer the watch.
\<close>

definition nodeB3 :: node where
  "nodeB3 = \<lparr>Key = ''/lock/db/3'', Value = ''clientB''\<rparr>"

definition turn_duplicate :: round where
  "turn_duplicate =
     \<lparr>get_reply = Inr \<lparr>ModifiedIndex = 9, Nodes = [nodeA, nodeB, nodeB3]\<rparr>,
      client_gone = False, watch_reply = Silent\<rparr>"

section \<open>The watch loop, turn by turn\<close>

lemma watch_proceeds:
  assumes "proceeds index cc r"
  shows "watch kp index cc (r # rs) =
           (turn_calls kp index r @ fst (watch kp index cc rs), snd (watch kp index cc rs))"
  using assms
  by (auto simp: proceeds_def turn_calls_def Let_def split: sum.splits prod.splits)

lemma watch_append:
  assumes "list_all (proceeds index cc) pre"
  shows "watch kp index cc (pre @ rs) =
           (concat (map (turn_calls kp index) pre) @ fst (watch kp index cc rs),
            snd (watch kp index cc rs))"
  using assms
proof (induction pre)
  case Nil
  show ?case by simp
next
  case (Cons p ps)
  then have p: "proceeds index cc p" and ps: "list_all (proceeds index cc) ps"
    by simp_all
  show ?case
    using watch_proceeds [OF p, of kp "ps @ rs"] Cons.IH [OF ps] by simp
qed

lemma watch_success_cases:
  assumes "watch kp index cc rs = (cs, Returns None)"
  shows "\<exists>pre r resp rest. rs = pre @ r # rest \<and> list_all (proceeds index cc) pre \<and>
           get_reply r = Inr resp \<and> PrevIndex (Nodes resp) index = 0 \<and>
           cs = concat (map (turn_calls kp index) pre) @ [Get kp]"
  using assms
proof (induction rs arbitrary: cs)
  case Nil
  then show ?case by simp
next
  case (Cons r rs)
  show ?case
  proof (cases "proceeds index cc r")
    case True
    from watch_proceeds [OF True, of kp rs] Cons.prems
    have cs: "cs = turn_calls kp index r @ fst (watch kp index cc rs)"
      and out: "snd (watch kp index cc rs) = Returns None"
      by simp_all
    then have "watch kp index cc rs = (fst (watch kp index cc rs), Returns None)"
      by (metis prod.collapse)
    from Cons.IH [OF this] obtain pre r' resp rest where
      *: "rs = pre @ r' # rest" "list_all (proceeds index cc) pre" "get_reply r' = Inr resp"
         "PrevIndex (Nodes resp) index = 0"
         "fst (watch kp index cc rs) = concat (map (turn_calls kp index) pre) @ [Get kp]"
      by blast
    have "r # rs = (r # pre) @ r' # rest" using * by simp
    moreover have "list_all (proceeds index cc) (r # pre)" using True * by simp
    moreover have "cs = concat (map (turn_calls kp index) (r # pre)) @ [Get kp]"
      using cs * by simp
    ultimately show ?thesis using * by blast
  next
    case False
    with Cons.prems obtain resp where
      "get_reply r = Inr resp" "PrevIndex (Nodes resp) index = 0" "cs = [Get kp]"
      by (auto simp: proceeds_def Let_def client_Watch_def
               split: sum.splits prod.splits outcome.splits option.splits etcd_error.splits
                      if_splits watch_reply.splits)
    then have "r # rs = [] @ r # rs \<and> list_all (proceeds index cc) [] \<and>
      get_reply r = Inr resp \<and> PrevIndex (Nodes resp) index = 0 \<and>
      cs = concat (map (turn_calls kp index) []) @ [Get kp]"
      by simp
    then show ?thesis by blast
  qed
qed

section \<open>The handler, path by path\<close>

lemma watch_calls_only:
  "c \<in> set (fst (watch kp index cc rs)) \<Longrightarrow> c = Get kp \<or> (\<exists>p w. c = Watch kp p w)"
  by (induction rs)
     (auto simp: Let_def split: sum.splits prod.splits outcome.splits option.splits
                 etcd_error.splits if_splits)


lemma acquireHandler_well_formed:
  assumes "well_formed req"
  shows "acquireHandler kp req e =
     (if 0 < snd (findExistingNode kp (form_value req) e)
      then
        (case watch kp (snd (findExistingNode kp (form_value req) e)) Nil_chan (rounds e) of
           (cs, Blocked) \<Rightarrow> (SyncCluster # fst (findExistingNode kp (form_value req) e) @ cs, Blocked)
         | (cs, Returns err) \<Rightarrow>
             (SyncCluster # fst (findExistingNode kp (form_value req) e) @ cs @ [CloseStopChan],
              Returns (respond (snd (findExistingNode kp (form_value req) e)) err)))
      else
        (case createNode kp (form_value req) (fst (Atoi (form_ttl req))) Close_notify e of
           (cs, Blocked) \<Rightarrow> (SyncCluster # fst (findExistingNode kp (form_value req) e) @ cs, Blocked)
         | (cs, Returns (index', err)) \<Rightarrow>
             (SyncCluster # fst (findExistingNode kp (form_value req) e) @ cs @ [CloseStopChan],
              Returns (respond index' err))))"
  using assms
  by (auto simp: acquireHandler_def well_formed_def Let_def case_prod_beta split: option.splits)

lemma acquireHandler_malformed:
  assumes "\<not> well_formed req"
  shows "acquireHandler kp req e =
     ([SyncCluster],
      Returns (HttpError
        (if form_timeout req \<noteq> [] \<and> snd (Atoi (form_timeout req)) \<noteq> None
         then ''invalid timeout: '' @ form_timeout req
         else ''invalid ttl: '' @ form_ttl req)))"
  using assms
  by (auto simp: acquireHandler_def well_formed_def Let_def case_prod_beta split: option.splits)



lemma createNode_first_call:
  "\<exists>cs. fst (createNode kp v0 ttl cc e) = AddChild kp (if v0 = [] then ''-'' else v0) (uint64 ttl) # cs"
  by (auto simp: createNode_def Let_def split: sum.splits prod.splits outcome.splits)


lemma findExistingNode_first_call:
  "form_value req \<noteq> [] \<Longrightarrow> fst (findExistingNode kp (form_value req) e) = [Get kp]"
  by (auto simp: findExistingNode_def split: sum.splits option.splits)





section \<open>The claims\<close>

text \<open>
  C2. A well-formed request with a non-empty value, whose lookup succeeds with a snapshot
  that holds an entry carrying that value, the entries of that value having positive
  indices (as every entry made by \<^verbatim>\<open>AddChild\<close> has): the handler issues no
  \<^verbatim>\<open>AddChild\<close> at all, and after the lookup it runs the watch loop for the index of an
  entry of the snapshot that carries the value; what it answers is that index, or the
  error of the loop.
\<close>

theorem acquire_reuses_existing_entry:
  assumes "well_formed req" and "form_value req \<noteq> []"
    and "find_reply e = Inr resp"
    and "m \<in> set (Nodes resp)" and "Value m = form_value req"
    and "\<forall>n \<in> set (Nodes resp). Value n = form_value req \<longrightarrow> 0 < keyIndex (Key n)"
  shows
  "\<exists>n \<in> set (Nodes resp). Value n = form_value req \<and>
     acquireHandler kp req e =
       (case watch kp (keyIndex (Key n)) Nil_chan (rounds e) of
          (cs, Blocked) \<Rightarrow> (SyncCluster # Get kp # cs, Blocked)
        | (cs, Returns err) \<Rightarrow>
            (SyncCluster # Get kp # cs @ [CloseStopChan],
             Returns (respond (keyIndex (Key n)) err))) \<and>
     (\<forall>c \<in> set (fst (acquireHandler kp req e)). \<forall>k v t. c \<noteq> AddChild k v t)"
proof -
  from assms(4,5) obtain n where found: "FindByValue (Nodes resp) (form_value req) = Some n"
    by (cases "FindByValue (Nodes resp) (form_value req)")
       (auto simp: FindByValue_def find_None_iff)
  then have n: "n \<in> set (Nodes resp)" "Value n = form_value req"
    by (auto simp: FindByValue_def find_Some_iff)
  with assms(6) have pos: "0 < keyIndex (Key n)"
    by blast
  have f: "findExistingNode kp (form_value req) e = ([Get kp], keyIndex (Key n))"
    using assms(2,3) found by (simp add: findExistingNode_def)
  have a: "acquireHandler kp req e =
     (case watch kp (keyIndex (Key n)) Nil_chan (rounds e) of
        (cs, Blocked) \<Rightarrow> (SyncCluster # Get kp # cs, Blocked)
      | (cs, Returns err) \<Rightarrow>
          (SyncCluster # Get kp # cs @ [CloseStopChan],
           Returns (respond (keyIndex (Key n)) err)))"
    using pos by (simp add: acquireHandler_well_formed [OF assms(1)] f)
  have "\<forall>c \<in> set (fst (acquireHandler kp req e)). \<forall>k v t. c \<noteq> AddChild k v t"
  proof (intro ballI allI notI)
    fix c k v t
    assume c: "c \<in> set (fst (acquireHandler kp req e))" and "c = AddChild k v t"
    from c have "c = SyncCluster \<or> c = Get kp \<or> c = CloseStopChan \<or>
        c \<in> set (fst (watch kp (keyIndex (Key n)) Nil_chan (rounds e)))"
      unfolding a by (auto split: prod.splits outcome.splits)
    with watch_calls_only [of c kp "keyIndex (Key n)" Nil_chan "rounds e"] \<open>c = AddChild k v t\<close>
    show False by auto
  qed
  with n a show ?thesis by blast
qed

theorem acquire_reuses_existing_entry_witness:
  "acquireHandler ''/lock/db'' (request_B ''10'') (env_reuse [turn_behind, turn_first]) =
     ([SyncCluster, Get ''/lock/db'', Get ''/lock/db'', Watch ''/lock/db'' 1 7, Get ''/lock/db'',
       CloseStopChan],
      Returns (Body ''2''))"
proof -
  let ?resp = "\<lparr>ModifiedIndex = 6, Nodes = [nodeA, nodeB]\<rparr>"
  have 1: "well_formed (request_B ''10'')"
    by code_simp
  have 2: "form_value (request_B ''10'') \<noteq> []"
    by (simp add: request_B_def)
  have 3: "find_reply (env_reuse [turn_behind, turn_first]) = Inr ?resp"
    by (simp add: env_reuse_def env_create_def)
  have 4: "nodeB \<in> set (Nodes ?resp)"
    by simp
  have 5: "Value nodeB = form_value (request_B ''10'')"
    by (simp add: nodeB_def request_B_def)
  have a: "Value nodeA \<noteq> form_value (request_B ''10'')"
    by (simp add: nodeA_def request_B_def)
  have b: "0 < keyIndex (Key nodeB)"
    by code_simp
  have 6: "\<forall>n \<in> set (Nodes ?resp).
      Value n = form_value (request_B ''10'') \<longrightarrow> 0 < keyIndex (Key n)"
    using a b by simp
  have 7: "(case watch ''/lock/db'' (keyIndex (Key nodeB)) Nil_chan
               (rounds (env_reuse [turn_behind, turn_first])) of
        (cs, Blocked) \<Rightarrow> (SyncCluster # Get ''/lock/db'' # cs, Blocked)
      | (cs, Returns err) \<Rightarrow>
          (SyncCluster # Get ''/lock/db'' # cs @ [CloseStopChan],
           Returns (respond (keyIndex (Key nodeB)) err))) =
     ([SyncCluster, Get ''/lock/db'', Get ''/lock/db'', Watch ''/lock/db'' 1 7, Get ''/lock/db'',
       CloseStopChan],
      Returns (Body ''2''))"
    by code_simp
  from acquire_reuses_existing_entry [OF 1 2 3 4 5 6, of "''/lock/db''"]
  obtain n where n: "n \<in> set (Nodes ?resp)" "Value n = form_value (request_B ''10'')"
    and h: "acquireHandler ''/lock/db'' (request_B ''10'') (env_reuse [turn_behind, turn_first]) =
       (case watch ''/lock/db'' (keyIndex (Key n)) Nil_chan
               (rounds (env_reuse [turn_behind, turn_first])) of
          (cs, Blocked) \<Rightarrow> (SyncCluster # Get ''/lock/db'' # cs, Blocked)
        | (cs, Returns err) \<Rightarrow>
            (SyncCluster # Get ''/lock/db'' # cs @ [CloseStopChan],
             Returns (respond (keyIndex (Key n)) err)))"
    by blast
  from n a have nB: "n = nodeB"
    by auto
  from h [unfolded nB] 7 show ?thesis
    by simp
qed



text \<open>
  C4. The watch loop looks the whole directory up afresh in every turn. It returns
  success exactly when, in some turn, the preceding index of the caller's index in the
  snapshot of that turn is 0, every turn before it having found a predecessor and watched
  it to a normal completion; in each of those turns the watch is on the predecessor found
  in that turn's snapshot, from the modified index of the directory in that snapshot. After
  any number of such turns the loop goes on as from its start, with a new lookup.
\<close>

theorem watch_loop_algorithm:
  "((watch kp index cc rs = (cs, Returns None)) =
      (\<exists>pre r resp rest.
         rs = pre @ r # rest \<and> list_all (proceeds index cc) pre \<and>
         get_reply r = Inr resp \<and> PrevIndex (Nodes resp) index = 0 \<and>
         cs = concat (map (turn_calls kp index) pre) @ [Get kp])) \<and>
   (list_all (proceeds index cc) turns \<longrightarrow>
      watch kp index cc (turns @ rs) =
        (concat (map (turn_calls kp index) turns) @ fst (watch kp index cc rs),
         snd (watch kp index cc rs)))"
proof (intro conjI impI iffI)
  assume "watch kp index cc rs = (cs, Returns None)"
  then show "\<exists>pre r resp rest.
        rs = pre @ r # rest \<and> list_all (proceeds index cc) pre \<and>
        get_reply r = Inr resp \<and> PrevIndex (Nodes resp) index = 0 \<and>
        cs = concat (map (turn_calls kp index) pre) @ [Get kp]"
    by (rule watch_success_cases)
next
  assume "\<exists>pre r resp rest.
        rs = pre @ r # rest \<and> list_all (proceeds index cc) pre \<and>
        get_reply r = Inr resp \<and> PrevIndex (Nodes resp) index = 0 \<and>
        cs = concat (map (turn_calls kp index) pre) @ [Get kp]"
  then obtain pre r resp rest where
    *: "rs = pre @ r # rest" "list_all (proceeds index cc) pre" "get_reply r = Inr resp"
       "PrevIndex (Nodes resp) index = 0"
       "cs = concat (map (turn_calls kp index) pre) @ [Get kp]"
    by blast
  have "watch kp index cc (r # rest) = ([Get kp], Returns None)"
    using * by simp
  with watch_append [OF *(2), of kp "r # rest"] * show "watch kp index cc rs = (cs, Returns None)"
    by simp
next
  assume "list_all (proceeds index cc) turns"
  then show "watch kp index cc (turns @ rs) =
        (concat (map (turn_calls kp index) turns) @ fst (watch kp index cc rs),
         snd (watch kp index cc rs))"
    by (rule watch_append)
qed

theorem watch_loop_algorithm_witness:
  "watch ''/lock/db'' 2 Close_notify [turn_behind, turn_first] =
     ([Get ''/lock/db'', Watch ''/lock/db'' 1 7, Get ''/lock/db''], Returns None)"
proof -
  have p: "list_all (proceeds 2 Close_notify) [turn_behind]"
    by code_simp
  have g: "get_reply turn_first = Inr \<lparr>ModifiedIndex = 8, Nodes = [nodeB]\<rparr>"
    by (simp add: turn_first_def)
  have z: "PrevIndex (Nodes \<lparr>ModifiedIndex = 8, Nodes = [nodeB]\<rparr>) 2 = 0"
    by code_simp
  have c: "concat (map (turn_calls ''/lock/db'' 2) [turn_behind]) @ [Get ''/lock/db''] =
           [Get ''/lock/db'', Watch ''/lock/db'' 1 7, Get ''/lock/db'']"
    by code_simp
  have "\<exists>pre r resp rest.
         [turn_behind, turn_first] = pre @ r # rest \<and> list_all (proceeds 2 Close_notify) pre \<and>
         get_reply r = Inr resp \<and> PrevIndex (Nodes resp) 2 = 0 \<and>
         [Get ''/lock/db'', Watch ''/lock/db'' 1 7, Get ''/lock/db''] =
           concat (map (turn_calls ''/lock/db'' 2) pre) @ [Get ''/lock/db'']"
    using p g z c
    by (intro exI [of _ "[turn_behind]"] exI [of _ turn_first]
              exI [of _ "\<lparr>ModifiedIndex = 8, Nodes = [nodeB]\<rparr>"] exI [of _ "[]"]) simp
  then show ?thesis
    using watch_loop_algorithm [of "''/lock/db''" 2 Close_notify "[turn_behind, turn_first]"
        "[Get ''/lock/db'', Watch ''/lock/db'' 1 7, Get ''/lock/db'']"]
    by blast
qed

text \<open>
  C5. In a turn reached by the loop, a lookup error is returned as the failure
  \<^verbatim>\<open>lock watch lookup error: ...\<close>, a watch stopped by the stop signal is returned as
  the failure \<^verbatim>\<open>lock watch closed\<close>, and any other watch error as the failure
  \<^verbatim>\<open>lock watch error:...\<close>; the loop issues no call after the failing one, whatever turns
  the environment would still have played.
\<close>

theorem watch_failures_not_retried:
  assumes "list_all (proceeds index cc) pre"
  shows
  "(get_reply r = Inl e \<longrightarrow>
      watch kp index cc (pre @ r # rest) =
        (concat (map (turn_calls kp index) pre) @ [Get kp],
         Returns (Some (''lock watch lookup error: '' @ e)))) \<and>
   (get_reply r = Inr resp \<and> PrevIndex (Nodes resp) index \<noteq> 0 \<and>
    cc = Close_notify \<and> client_gone r \<longrightarrow>
      watch kp index cc (pre @ r # rest) =
        (concat (map (turn_calls kp index) pre) @
           [Get kp, Watch kp (PrevIndex (Nodes resp) index) (ModifiedIndex resp)],
         Returns (Some ''lock watch closed''))) \<and>
   (get_reply r = Inr resp \<and> PrevIndex (Nodes resp) index \<noteq> 0 \<and>
    \<not> (cc = Close_notify \<and> client_gone r) \<and> watch_reply r = WatchFailed e \<longrightarrow>
      watch kp index cc (pre @ r # rest) =
        (concat (map (turn_calls kp index) pre) @
           [Get kp, Watch kp (PrevIndex (Nodes resp) index) (ModifiedIndex resp)],
         Returns (Some (''lock watch error:'' @ e))))"
proof (intro conjI impI)
  assume "get_reply r = Inl e"
  then have "watch kp index cc (r # rest) =
      ([Get kp], Returns (Some (''lock watch lookup error: '' @ e)))"
    by simp
  with watch_append [OF assms, of kp "r # rest"]
  show "watch kp index cc (pre @ r # rest) =
        (concat (map (turn_calls kp index) pre) @ [Get kp],
         Returns (Some (''lock watch lookup error: '' @ e)))"
    by simp
next
  assume "get_reply r = Inr resp \<and> PrevIndex (Nodes resp) index \<noteq> 0 \<and>
    cc = Close_notify \<and> client_gone r"
  then have "watch kp index cc (r # rest) =
      ([Get kp, Watch kp (PrevIndex (Nodes resp) index) (ModifiedIndex resp)],
       Returns (Some ''lock watch closed''))"
    by (simp add: client_Watch_def Let_def)
  with watch_append [OF assms, of kp "r # rest"]
  show "watch kp index cc (pre @ r # rest) =
        (concat (map (turn_calls kp index) pre) @
           [Get kp, Watch kp (PrevIndex (Nodes resp) index) (ModifiedIndex resp)],
         Returns (Some ''lock watch closed''))"
    by simp
next
  assume "get_reply r = Inr resp \<and> PrevIndex (Nodes resp) index \<noteq> 0 \<and>
    \<not> (cc = Close_notify \<and> client_gone r) \<and> watch_reply r = WatchFailed e"
  then have "watch kp index cc (r # rest) =
      ([Get kp, Watch kp (PrevIndex (Nodes resp) index) (ModifiedIndex resp)],
       Returns (Some (''lock watch error:'' @ e)))"
    by (auto simp: client_Watch_def Let_def)
  with watch_append [OF assms, of kp "r # rest"]
  show "watch kp index cc (pre @ r # rest) =
        (concat (map (turn_calls kp index) pre) @
           [Get kp, Watch kp (PrevIndex (Nodes resp) index) (ModifiedIndex resp)],
         Returns (Some (''lock watch error:'' @ e)))"
    by simp
qed

theorem watch_failures_not_retried_witness:
  "watch ''/lock/db'' 2 Close_notify ([turn_behind] @ turn_lookup_fails # [turn_first]) =
     ([Get ''/lock/db'', Watch ''/lock/db'' 1 7, Get ''/lock/db''],
      Returns (Some ''lock watch lookup error: connection refused'')) \<and>
   watch ''/lock/db'' 2 Close_notify ([turn_behind] @ turn_disconnect # [turn_first]) =
     ([Get ''/lock/db'', Watch ''/lock/db'' 1 7, Get ''/lock/db'', Watch ''/lock/db'' 1 7],
      Returns (Some ''lock watch closed'')) \<and>
   watch ''/lock/db'' 2 Close_notify ([turn_behind] @ turn_watch_fails # [turn_first]) =
     ([Get ''/lock/db'', Watch ''/lock/db'' 1 7, Get ''/lock/db'', Watch ''/lock/db'' 1 7],
      Returns (Some ''lock watch error:EOF''))"
proof -
  have p: "list_all (proceeds 2 Close_notify) [turn_behind]"
    by code_simp
  have c: "concat (map (turn_calls ''/lock/db'' 2) [turn_behind]) =
           [Get ''/lock/db'', Watch ''/lock/db'' 1 7]"
    by code_simp
  have z: "PrevIndex [nodeA, nodeB] 2 = 1"
    by code_simp
  have 1: "get_reply turn_lookup_fails = Inl ''connection refused''"
    by (simp add: turn_lookup_fails_def)
  have 2: "get_reply turn_disconnect = Inr \<lparr>ModifiedIndex = 7, Nodes = [nodeA, nodeB]\<rparr>"
      "client_gone turn_disconnect"
    by (simp_all add: turn_disconnect_def)
  have 3: "get_reply turn_watch_fails = Inr \<lparr>ModifiedIndex = 7, Nodes = [nodeA, nodeB]\<rparr>"
      "\<not> client_gone turn_watch_fails" "watch_reply turn_watch_fails = WatchFailed ''EOF''"
    by (simp_all add: turn_watch_fails_def)
  show ?thesis
    using watch_failures_not_retried [OF p, where r = turn_lookup_fails
            and e = "''connection refused''" and kp = "''/lock/db''" and rest = "[turn_first]"]
          watch_failures_not_retried [OF p, where r = turn_disconnect
            and resp = "\<lparr>ModifiedIndex = 7, Nodes = [nodeA, nodeB]\<rparr>"
            and kp = "''/lock/db''" and rest = "[turn_first]"]
          watch_failures_not_retried [OF p, where r = turn_watch_fails and e = "''EOF''"
            and resp = "\<lparr>ModifiedIndex = 7, Nodes = [nodeA, nodeB]\<rparr>"
            and kp = "''/lock/db''" and rest = "[turn_first]"]
          1 2 3 c z
    by simp
qed

text \<open>
  C6, as amended. The ttl has to convert with \<^verbatim>\<open>strconv.Atoi\<close> (a negative number does),
  and so has a timeout that is present. A request that is not well-formed in this sense is
  answered with the error \<^verbatim>\<open>invalid timeout: ...\<close> or \<^verbatim>\<open>invalid ttl: ...\<close>, the cluster
  synchronisation being the only call issued; a well-formed one goes on to the store, with
  the lookup by value or, for a blank value, with \<^verbatim>\<open>AddChild\<close>.
\<close>

theorem acquire_rejects_malformed:
  "(\<not> well_formed req \<longrightarrow>
      acquireHandler kp req e =
        ([SyncCluster],
         Returns (HttpError
           (if form_timeout req \<noteq> [] \<and> snd (Atoi (form_timeout req)) \<noteq> None
            then ''invalid timeout: '' @ form_timeout req
            else ''invalid ttl: '' @ form_ttl req)))) \<and>
   (well_formed req \<longrightarrow>
      (\<exists>cs. fst (acquireHandler kp req e) =
         SyncCluster #
         (if form_value req = [] then AddChild kp ''-'' (uint64 (fst (Atoi (form_ttl req))))
          else Get kp) # cs))"
proof (intro conjI impI)
  assume "\<not> well_formed req"
  then show "acquireHandler kp req e =
        ([SyncCluster],
         Returns (HttpError
           (if form_timeout req \<noteq> [] \<and> snd (Atoi (form_timeout req)) \<noteq> None
            then ''invalid timeout: '' @ form_timeout req
            else ''invalid ttl: '' @ form_ttl req)))"
    by (rule acquireHandler_malformed)
next
  assume w: "well_formed req"
  show "\<exists>cs. fst (acquireHandler kp req e) =
         SyncCluster #
         (if form_value req = [] then AddChild kp ''-'' (uint64 (fst (Atoi (form_ttl req))))
          else Get kp) # cs"
  proof (cases "form_value req = []")
    case True
    have f: "findExistingNode kp [] e = ([], 0)"
      by (simp add: findExistingNode_def)
    obtain cs where "fst (createNode kp (form_value req) (fst (Atoi (form_ttl req)))
        Close_notify e) =
        AddChild kp ''-'' (uint64 (fst (Atoi (form_ttl req)))) # cs"
      using createNode_first_call [of kp "form_value req" "fst (Atoi (form_ttl req))"
          Close_notify e] True
      by auto
    with True show ?thesis
      by (cases "createNode kp (form_value req) (fst (Atoi (form_ttl req))) Close_notify e")
         (auto simp: acquireHandler_well_formed [OF w] f split: outcome.splits)
  next
    case False
    then have "fst (findExistingNode kp (form_value req) e) = [Get kp]"
      by (rule findExistingNode_first_call)
    with False show ?thesis
      by (auto simp: acquireHandler_well_formed [OF w] split: prod.splits outcome.splits)
  qed
qed

theorem acquire_rejects_malformed_witness:
  "acquireHandler ''/lock/db'' (request_B ''ten'') (env_create [turn_behind, turn_first]) =
     ([SyncCluster], Returns (HttpError ''invalid ttl: ten'')) \<and>
   acquireHandler ''/lock/db'' (request_B '''') (env_create [turn_behind, turn_first]) =
     ([SyncCluster], Returns (HttpError ''invalid ttl: '')) \<and>
   acquireHandler ''/lock/db''
       \<lparr>form_value = ''clientB'', form_timeout = ''5s'', form_ttl = ''10''\<rparr>
       (env_create [turn_behind, turn_first]) =
     ([SyncCluster], Returns (HttpError ''invalid timeout: 5s'')) \<and>
   (\<exists>cs. fst (acquireHandler ''/lock/db'' (request_B ''-1'')
             (env_create [turn_behind, turn_first])) =
      SyncCluster # Get ''/lock/db'' # cs)"
proof -
  have 1: "\<not> well_formed (request_B ''ten'')"
    by code_simp
  have 2: "\<not> well_formed (request_B '''')"
    by code_simp
  have 3: "\<not> well_formed \<lparr>form_value = ''clientB'', form_timeout = ''5s'', form_ttl = ''10''\<rparr>"
    by code_simp
  have 4: "well_formed (request_B ''-1'')"
    by code_simp
  have 5: "entry_value (request_B ''-1'') = ''clientB''"
    by code_simp
  have 6: "snd (Atoi ''5s'') \<noteq> None"
    by code_simp
  show ?thesis
    using acquire_rejects_malformed [of "request_B ''ten''" "''/lock/db''"
            "env_create [turn_behind, turn_first]"]
          acquire_rejects_malformed [of "request_B ''''" "''/lock/db''"
            "env_create [turn_behind, turn_first]"]
          acquire_rejects_malformed
            [of "\<lparr>form_value = ''clientB'', form_timeout = ''5s'', form_ttl = ''10''\<rparr>"
                "''/lock/db''" "env_create [turn_behind, turn_first]"]
          acquire_rejects_malformed [of "request_B ''-1''" "''/lock/db''"
            "env_create [turn_behind, turn_first]"]
          1 2 3 4 5 6
    by (auto simp: request_B_def)
qed

text \<open>
  The ttl \<^verbatim>\<open>-1\<close> is accepted: the entry is created and refreshed with the ttl
  \<^verbatim>\<open>uint64(-1)\<close>, and the lock is acquired.
\<close>

theorem acquire_negative_ttl_accepted:
  "acquireHandler ''/lock/db'' (request_B ''-1'') (env_create [turn_behind, turn_first]) =
     ([SyncCluster, Get ''/lock/db'', AddChild ''/lock/db'' ''clientB'' 18446744073709551615,
       GoTtlKeepAlive ''/lock/db/2'' ''clientB'' (- 1), Get ''/lock/db'', Watch ''/lock/db'' 1 7,
       Get ''/lock/db'', Update ''/lock/db/2'' ''clientB'' 18446744073709551615, CloseStopChan],
      Returns (Body ''2''))"
  by code_simp






text \<open>
  C10. A well-formed request with a non-empty value whose lookup in \<^verbatim>\<open>findExistingNode\<close>
  fails: no index is found, the handler does as it would have done on an empty directory,
  and its next call is \<^verbatim>\<open>AddChild\<close> with the request's value.
\<close>

theorem acquire_swallows_lookup_error:
  assumes "well_formed req" and "form_value req \<noteq> []" and "find_reply e = Inl err"
  shows
  "findExistingNode kp (form_value req) e = ([Get kp], 0) \<and>
   acquireHandler kp req e =
     acquireHandler kp req (e\<lparr>find_reply := Inr \<lparr>ModifiedIndex = m, Nodes = []\<rparr>\<rparr>) \<and>
   (\<exists>cs. fst (acquireHandler kp req e) =
      SyncCluster # Get kp #
      AddChild kp (form_value req) (uint64 (fst (Atoi (form_ttl req)))) # cs)"
proof -
  let ?e' = "e\<lparr>find_reply := Inr \<lparr>ModifiedIndex = m, Nodes = []\<rparr>\<rparr>"
  have f: "findExistingNode kp (form_value req) e = ([Get kp], 0)"
    using assms(2,3) by (simp add: findExistingNode_def)
  have f': "findExistingNode kp (form_value req) ?e' = ([Get kp], 0)"
    using assms(2) by (simp add: findExistingNode_def FindByValue_def)
  have c: "createNode kp (form_value req) (fst (Atoi (form_ttl req))) Close_notify ?e' =
           createNode kp (form_value req) (fst (Atoi (form_ttl req))) Close_notify e"
    by (simp add: createNode_def Let_def split: sum.splits prod.splits outcome.splits)
  have a: "acquireHandler kp req e = acquireHandler kp req ?e'"
    by (simp add: acquireHandler_well_formed [OF assms(1)] f f' c)
  obtain cs where cs: "fst (createNode kp (form_value req) (fst (Atoi (form_ttl req)))
      Close_notify e) = AddChild kp (form_value req) (uint64 (fst (Atoi (form_ttl req)))) # cs"
    using createNode_first_call [of kp "form_value req" "fst (Atoi (form_ttl req))" Close_notify e]
      assms(2) by auto
  have "\<exists>cs'. fst (acquireHandler kp req e) =
      SyncCluster # Get kp #
      AddChild kp (form_value req) (uint64 (fst (Atoi (form_ttl req)))) # cs'"
    using cs
    by (cases "createNode kp (form_value req) (fst (Atoi (form_ttl req))) Close_notify e")
       (auto simp: acquireHandler_well_formed [OF assms(1)] f split: outcome.splits)
  with f a show ?thesis by blast
qed

theorem acquire_swallows_lookup_error_witness:
  "acquireHandler ''/lock/db'' (request_B ''10'') (env_lookup_fails [turn_duplicate]) =
     ([SyncCluster, Get ''/lock/db'', AddChild ''/lock/db'' ''clientB'' 10,
       GoTtlKeepAlive ''/lock/db/3'' ''clientB'' 10, Get ''/lock/db'', Watch ''/lock/db'' 2 9],
      Blocked)"
proof -
  have w: "well_formed (request_B ''10'')"
    by code_simp
  have 1: "form_value (request_B ''10'') \<noteq> []"
    by (simp add: request_B_def)
  have 2: "find_reply (env_lookup_fails [turn_duplicate]) = Inl ''connection refused''"
    by (simp add: env_lookup_fails_def)
  have 3: "acquireHandler ''/lock/db'' (request_B ''10'')
      ((env_lookup_fails [turn_duplicate])\<lparr>find_reply := Inr \<lparr>ModifiedIndex = 0, Nodes = []\<rparr>\<rparr>) =
     ([SyncCluster, Get ''/lock/db'', AddChild ''/lock/db'' ''clientB'' 10,
       GoTtlKeepAlive ''/lock/db/3'' ''clientB'' 10, Get ''/lock/db'', Watch ''/lock/db'' 2 9],
      Blocked)"
    by code_simp
  show ?thesis
    using acquire_swallows_lookup_error [OF w 1 2, of "''/lock/db''" 0] 3 by simp
qed

end
